theory Spec2Isabelle
  imports
    Complex_Main
    "HOL-Library.Char_ord"
    "HOL-Library.List_Lexorder"
    "HOL-Library.Product_Lexorder"
begin

section \<open>The PDF engine's object model\<close>

text \<open>
  The scripts under \<^verbatim>\<open>packages/bubble-core/scripts\<close> are thin pipelines around the
  PyMuPDF engine (\<^verbatim>\<open>fitz\<close>).  The engine is not part of the repository, so every
  answer it can give is data of the model: a call either raises or returns, an
  attribute is present or absent, a returned object is falsy or not.  Coordinates
  are Python floats; they are idealised as real numbers, and Python's unbounded
  integers are \<^typ>\<open>int\<close>.  Strings are byte lists, compared lexicographically as
  Python compares \<^verbatim>\<open>str\<close> values.
\<close>

type_synonym bytes = "char list"

datatype 'a outcome = Raises | Returns 'a

text \<open>
  What \<^verbatim>\<open>choices\<close> can hold while a checkbox is resolved: \<^verbatim>\<open>None\<close>, a list of
  state names, or a dictionary whose values are lists of state names or something
  else (\<^verbatim>\<open>button_states()\<close> answers \<^verbatim>\<open>{"normal": [...], "down": None}\<close>).
\<close>

datatype dict_value = ValueList "string list" | ValueOther

datatype choices = PyNone | PyList "string list" | PyDict "(string \<times> dict_value) list"

fun truthy :: "choices \<Rightarrow> bool" where
  "truthy PyNone = False"
| "truthy (PyList xs) = (xs \<noteq> [])"
| "truthy (PyDict kvs) = (kvs \<noteq> [])"

text \<open>
  The normal appearance entry \<^verbatim>\<open>"/N"\<close>: an object with a \<^verbatim>\<open>keys()\<close> method (its
  state names, in dictionary order) or one without.  A truthy appearance dictionary
  is given by its \<^verbatim>\<open>"/N"\<close> entry, \<open>None\<close> when the key is missing.
\<close>

datatype normal_ap = Keys "string list" | NoKeys

type_synonym ap_dict = "normal_ap option"

text \<open>
  \<^verbatim>\<open>widget._annot\<close>: the attribute is missing, or it is falsy, or it is an annotation
  whose \<^verbatim>\<open>get("/AP")\<close> raises or returns a falsy value (\<open>None\<close>) or an appearance
  dictionary.
\<close>

datatype annot_attr = NoAnnotAttr | AnnotFalsy | Annot "ap_dict option outcome"

text \<open>
  \<^verbatim>\<open>widget._get_widget()\<close> raises (also when the method is missing) or returns an
  object that is falsy, or a dictionary with or without the key \<^verbatim>\<open>"/AP"\<close>.
\<close>

datatype widget_obj = ObjFalsy | Obj "ap_dict option"

record rect =
  rect_x0 :: real
  rect_y0 :: real
  rect_x1 :: real
  rect_y1 :: real

record widget =
  field_name :: "string option"
  field_type_string :: string
  field_value :: "string option"
  widget_rect :: rect
  button_states :: "choices outcome option"
  annot :: annot_attr
  get_widget :: "widget_obj outcome"
  field_flags :: "int option"

text \<open>A rendered page: the JPEG bytes of its pixmap and the pixmap's size.\<close>

record pixmap =
  pix_jpeg :: bytes
  pix_width :: int
  pix_height :: int

record page =
  widgets :: "widget list"
  page_rect_height :: real
  get_pixmap :: "pixmap outcome"

type_synonym document = "page list"

text \<open>Truthiness of an optional string: \<^verbatim>\<open>None\<close> and \<^verbatim>\<open>""\<close> are falsy.\<close>

fun truthy_str :: "string option \<Rightarrow> bool" where
  "truthy_str None = False"
| "truthy_str (Some s) = (s \<noteq> [])"

text \<open>\<^verbatim>\<open>v if v else ""\<close>; on a truthy \<open>v\<close> it is \<open>v\<close> itself.\<close>

fun or_empty :: "string option \<Rightarrow> string" where
  "or_empty None = []"
| "or_empty (Some s) = s"

section \<open>Field discovery (\<^verbatim>\<open>discover_pdf_fields.py\<close>)\<close>

record field_data =
  f_page :: int
  f_name :: string
  f_type :: string
  f_field_type :: string
  f_current_value :: string
  f_choices :: choices
  f_rect :: "real list"
  f_x :: real
  f_y :: real
  f_width :: real
  f_height :: real
  f_field_flags :: int
  f_label :: string
  f_potential_labels :: "string list"
  f_id :: "int option"

subsection \<open>Reading-order sort\<close>

text \<open>Python's \<^verbatim>\<open>round\<close> on a float: to the nearest integer, halves to the even one.\<close>

definition py_round :: "real \<Rightarrow> int" where
  "py_round v =
     (let f = \<lfloor>v\<rfloor>; d = v - of_int f
      in if d < 1 / 2 then f else if 1 / 2 < d then f + 1
         else if even f then f else f + 1)"

definition ROW_TOLERANCE :: int where
  "ROW_TOLERANCE = 10"

definition snapped_row :: "real \<Rightarrow> int" where
  "snapped_row y = py_round (y / of_int ROW_TOLERANCE) * ROW_TOLERANCE"

definition get_sort_key :: "field_data \<Rightarrow> real \<times> real" where
  "get_sort_key field =
     (let y = f_y field; x = f_x field; row = snapped_row y
      in (of_int row * - y, x))"

text \<open>\<^verbatim>\<open>sorted(fields, key=get_sort_key)\<close>: a stable sort on the key tuples.\<close>

definition sort_fields_reading_order :: "field_data list \<Rightarrow> field_data list" where
  "sort_fields_reading_order flds = sort_key get_sort_key flds"

subsection \<open>Checkbox choices\<close>

text \<open>Strategy 1: \<^verbatim>\<open>button_states()\<close>, when the widget has the method.\<close>

definition try_button_states :: "widget \<Rightarrow> choices outcome" where
  "try_button_states w =
     (case button_states w of None \<Rightarrow> Returns (PyList []) | Some r \<Rightarrow> r)"

text \<open>
  Strategy 2: the key set of the annotation's normal appearance, tried only while
  \<^verbatim>\<open>choices\<close> is falsy.  The \<^verbatim>\<open>elif isinstance(normal_ap, dict)\<close> branch is the case
  \<open>NoKeys\<close>: a dictionary has \<^verbatim>\<open>keys\<close>, so nothing is assigned there.
\<close>

definition try_annot :: "widget \<Rightarrow> choices \<Rightarrow> choices outcome" where
  "try_annot w choices =
     (if \<not> truthy choices then
        (case annot w of
           NoAnnotAttr \<Rightarrow> Returns choices
         | AnnotFalsy \<Rightarrow> Returns choices
         | Annot Raises \<Rightarrow> Raises
         | Annot (Returns None) \<Rightarrow> Returns choices
         | Annot (Returns (Some None)) \<Rightarrow> Returns choices
         | Annot (Returns (Some (Some (Keys ks)))) \<Rightarrow> Returns (PyList ks)
         | Annot (Returns (Some (Some NoKeys))) \<Rightarrow> Returns choices)
      else Returns choices)"

text \<open>
  Strategy 3: the widget object's own appearance dictionary, inside its own
  \<^verbatim>\<open>try\<close> with a bare \<^verbatim>\<open>except: pass\<close>, so that nothing it raises gets out.
\<close>

definition try_get_widget :: "widget \<Rightarrow> choices \<Rightarrow> choices" where
  "try_get_widget w choices =
     (if \<not> truthy choices then
        (case get_widget w of
           Raises \<Rightarrow> choices
         | Returns ObjFalsy \<Rightarrow> choices
         | Returns (Obj None) \<Rightarrow> choices
         | Returns (Obj (Some None)) \<Rightarrow> choices
         | Returns (Obj (Some (Some (Keys ks)))) \<Rightarrow> PyList ks
         | Returns (Obj (Some (Some NoKeys))) \<Rightarrow> choices)
      else choices)"

text \<open>The handler of the outer \<^verbatim>\<open>try\<close>: choices detected from the current value.\<close>

definition value_fallback :: "string \<Rightarrow> choices" where
  "value_fallback fv =
     (if fv \<noteq> [] \<and> fv \<noteq> ''Off'' then PyList [''Off'', fv] else PyList [''Off''])"

definition get_choices :: "widget \<Rightarrow> string \<Rightarrow> choices" where
  "get_choices w fv =
     (if field_type_string w = ''CheckBox'' then
        (case try_button_states w of
           Raises \<Rightarrow> value_fallback fv
         | Returns c1 \<Rightarrow>
             (case try_annot w c1 of
                Raises \<Rightarrow> value_fallback fv
              | Returns c2 \<Rightarrow> try_get_widget w c2))
      else PyList [])"

text \<open>
  Flattening a dictionary answer.  \<^verbatim>\<open>list(set(all_choices))\<close> enumerates the distinct
  values in an order Python leaves open; \<^const>\<open>remdups\<close> is one such enumeration, and
  lemma \<open>sort_key_enumeration\<close> below shows that the sort which follows for a
  checkbox gives the same list for every other one.
\<close>

definition flatten_choices :: "choices \<Rightarrow> choices" where
  "flatten_choices choices =
     (case choices of
        PyDict kvs \<Rightarrow>
          (let all_choices =
                 concat (map (\<lambda>(key, value_list).
                    case value_list of ValueList l \<Rightarrow> l | ValueOther \<Rightarrow> []) kvs)
           in PyList (if all_choices \<noteq> [] then remdups all_choices else []))
      | PyList xs \<Rightarrow> PyList xs
      | PyNone \<Rightarrow> PyNone)"

text \<open>The sort key \<^verbatim>\<open>lambda x: (str(x) != "Off", str(x))\<close>; \<open>False\<close> sorts first.\<close>

definition off_key :: "string \<Rightarrow> bool \<times> string" where
  "off_key x = (x \<noteq> ''Off'', x)"

text \<open>\<^verbatim>\<open>sorted\<close> of a dictionary sorts its keys.\<close>

definition sort_choices :: "string \<Rightarrow> choices \<Rightarrow> choices" where
  "sort_choices field_type choices =
     (if field_type = ''CheckBox'' \<and> truthy choices then
        (case choices of
           PyList xs \<Rightarrow> PyList (sort_key off_key xs)
         | PyDict kvs \<Rightarrow> PyList (sort_key off_key (map fst kvs))
         | PyNone \<Rightarrow> PyNone)
      else choices)"

definition normalize_choices :: "string \<Rightarrow> choices \<Rightarrow> choices" where
  "normalize_choices field_type choices = sort_choices field_type (flatten_choices choices)"

definition resolve_choices :: "widget \<Rightarrow> choices" where
  "resolve_choices w =
     (let fv = or_empty (field_value w)
      in normalize_choices (field_type_string w) (get_choices w fv))"

subsection \<open>The discovery loop\<close>

definition pdf_type_of :: "string \<Rightarrow> string" where
  "pdf_type_of field_type =
     (if field_type = ''CheckBox'' then ''/Btn''
      else if field_type = ''Signature'' then ''/Sig'' else ''/Tx'')"

definition make_field :: "nat \<Rightarrow> page \<Rightarrow> widget \<Rightarrow> field_data" where
  "make_field page_num pg w =
     (let r = widget_rect w;
          converted_y = page_rect_height pg - rect_y1 r
      in \<lparr> f_page = int page_num + 1,
           f_name = or_empty (field_name w),
           f_type = pdf_type_of (field_type_string w),
           f_field_type = field_type_string w,
           f_current_value = or_empty (field_value w),
           f_choices = resolve_choices w,
           f_rect = [rect_x0 r, converted_y, rect_x1 r, converted_y + (rect_y1 r - rect_y0 r)],
           f_x = rect_x0 r,
           f_y = converted_y,
           f_width = rect_x1 r - rect_x0 r,
           f_height = rect_y1 r - rect_y0 r,
           f_field_flags = (case field_flags w of Some fl \<Rightarrow> fl | None \<Rightarrow> 0),
           f_label = [],
           f_potential_labels = [],
           f_id = None \<rparr>)"

text \<open>
  Only widgets with a truthy \<^verbatim>\<open>field_name\<close> give a record.  Reading a page, its
  widgets and their rectangles is taken to succeed once the document is open.
\<close>

definition page_fields :: "nat \<Rightarrow> page \<Rightarrow> field_data list" where
  "page_fields page_num pg =
     map (make_field page_num pg) (filter (\<lambda>w. truthy_str (field_name w)) (widgets pg))"

definition skip_page :: "int option \<Rightarrow> nat \<Rightarrow> bool" where
  "skip_page target_page page_num =
     (case target_page of None \<Rightarrow> False | Some t \<Rightarrow> int page_num + 1 \<noteq> t)"

fun discover_pages :: "int option \<Rightarrow> nat \<Rightarrow> page list \<Rightarrow> field_data list" where
  "discover_pages target_page page_num [] = []"
| "discover_pages target_page page_num (pg # rest) =
     (if skip_page target_page page_num then discover_pages target_page (Suc page_num) rest
      else sort_fields_reading_order (page_fields page_num pg)
           @ discover_pages target_page (Suc page_num) rest)"

text \<open>\<^verbatim>\<open>for i, field in enumerate(all_fields, 1): field["id"] = i\<close>\<close>

fun assign_ids :: "int \<Rightarrow> field_data list \<Rightarrow> field_data list" where
  "assign_ids i [] = []"
| "assign_ids i (field # rest) = field\<lparr>f_id := Some i\<rparr> # assign_ids (i + 1) rest"

text \<open>
  \<^verbatim>\<open>fitz.open\<close> is the engine's: \<open>fitz_open pdf_data = None\<close> when it raises.  The
  handler of the outer \<^verbatim>\<open>try\<close> returns the empty list.
\<close>

definition discover_all_pdf_fields ::
  "(bytes \<Rightarrow> document option) \<Rightarrow> bytes \<Rightarrow> int option \<Rightarrow> field_data list" where
  "discover_all_pdf_fields fitz_open pdf_data target_page =
     (case fitz_open pdf_data of
        None \<Rightarrow> []
      | Some pdf_document \<Rightarrow> assign_ids 1 (discover_pages target_page 0 pdf_document))"

section \<open>Checkbox export values (\<^verbatim>\<open>get_checkbox_values.py\<close>)\<close>

record checkbox_info =
  cb_page :: int
  cb_current_value :: string
  cb_possible_values :: choices
  cb_field_flags :: int

text \<open>
  The body of the inner \<^verbatim>\<open>try\<close>.  Here \<^verbatim>\<open>widget._annot\<close> is read without a
  \<^verbatim>\<open>hasattr\<close> test, so a missing attribute raises, and the appearance keys are
  taken whether or not \<^verbatim>\<open>button_states()\<close> gave anything.
\<close>

definition appearance_states :: "widget \<Rightarrow> choices outcome" where
  "appearance_states w =
     (case try_button_states w of
        Raises \<Rightarrow> Raises
      | Returns st \<Rightarrow>
          (case annot w of
             NoAnnotAttr \<Rightarrow> Raises
           | AnnotFalsy \<Rightarrow> Returns st
           | Annot Raises \<Rightarrow> Raises
           | Annot (Returns None) \<Rightarrow> Returns st
           | Annot (Returns (Some None)) \<Rightarrow> Returns st
           | Annot (Returns (Some (Some (Keys ks)))) \<Rightarrow> Returns (PyList ks)
           | Annot (Returns (Some (Some NoKeys))) \<Rightarrow> Returns st))"

definition possible_values :: "widget \<Rightarrow> choices" where
  "possible_values w =
     (case appearance_states w of
        Raises \<Rightarrow> PyList [''Off'', ''Unknown'']
      | Returns st \<Rightarrow> if truthy st then st else PyList [''Off'', ''Unknown''])"

definition checkbox_entry :: "nat \<Rightarrow> widget \<Rightarrow> checkbox_info" where
  "checkbox_entry page_num w =
     \<lparr> cb_page = int page_num + 1,
       cb_current_value = (if truthy_str (field_value w) then or_empty (field_value w) else ''Off''),
       cb_possible_values = possible_values w,
       cb_field_flags = (case field_flags w of Some fl \<Rightarrow> fl | None \<Rightarrow> 0) \<rparr>"

fun checkbox_widgets ::
  "nat \<Rightarrow> widget list \<Rightarrow> (string \<rightharpoonup> checkbox_info) \<Rightarrow> (string \<rightharpoonup> checkbox_info)" where
  "checkbox_widgets page_num [] checkbox_values = checkbox_values"
| "checkbox_widgets page_num (w # ws) checkbox_values =
     checkbox_widgets page_num ws
       (if truthy_str (field_name w) \<and> field_type_string w = ''CheckBox''
        then checkbox_values(or_empty (field_name w) \<mapsto> checkbox_entry page_num w)
        else checkbox_values)"

fun checkbox_pages ::
  "nat \<Rightarrow> page list \<Rightarrow> (string \<rightharpoonup> checkbox_info) \<Rightarrow> (string \<rightharpoonup> checkbox_info)" where
  "checkbox_pages page_num [] checkbox_values = checkbox_values"
| "checkbox_pages page_num (pg # rest) checkbox_values =
     checkbox_pages (Suc page_num) rest (checkbox_widgets page_num (widgets pg) checkbox_values)"

definition get_checkbox_export_values ::
  "(bytes \<Rightarrow> document option) \<Rightarrow> bytes \<Rightarrow> (string \<rightharpoonup> checkbox_info)" where
  "get_checkbox_export_values fitz_open pdf_data =
     (case fitz_open pdf_data of
        None \<Rightarrow> Map.empty
      | Some pdf_document \<Rightarrow> checkbox_pages 0 pdf_document Map.empty)"

section \<open>Page images (\<^verbatim>\<open>pdf_to_markdown_images.py\<close>)\<close>

record image =
  img_page :: int
  img_format :: string
  img_data :: string
  img_width :: int
  img_height :: int
  img_size_kb :: int

text \<open>The lines the function prints on standard error, in the order of the source.\<close>

datatype diag =
    PdfHasPages int
  | PdfTooLarge int
  | Converting nat int
  | PageMissing int
  | PageConverted int int int int
  | Converted nat
  | ErrorConverting
  | ErrorTraceback

text \<open>
  \<^verbatim>\<open>pdf_document[page_num]\<close> below the page count: the engine counts a negative
  index from the end, and has nothing to give when there is no page.  The command
  line never asks for a negative index (\<open>parse_pages\<close> below).
\<close>

definition getitem :: "document \<Rightarrow> int \<Rightarrow> page outcome" where
  "getitem pdf_document i =
     (if 0 \<le> i \<and> i < int (length pdf_document) then Returns (pdf_document ! nat i)
      else if i < 0 \<and> pdf_document \<noteq> []
        then Returns (pdf_document ! nat (i mod int (length pdf_document)))
      else Raises)"

text \<open>\<^verbatim>\<open>pages[:max_pages]\<close>; a negative bound drops from the end.\<close>

definition slice_to :: "'a list \<Rightarrow> int \<Rightarrow> 'a list" where
  "slice_to xs n = (if 0 \<le> n then take (nat n) xs else take (length xs - nat (- n)) xs)"

definition make_image :: "(bytes \<Rightarrow> string) \<Rightarrow> int \<Rightarrow> pixmap \<Rightarrow> image" where
  "make_image b64encode page_num pix =
     \<lparr> img_page = page_num + 1,
       img_format = ''jpeg'',
       img_data = b64encode (pix_jpeg pix),
       img_width = pix_width pix,
       img_height = pix_height pix,
       img_size_kb = int (length (pix_jpeg pix)) div 1024 \<rparr>"

text \<open>
  The conversion loop, with the images and the diagnostics so far.  An exception of
  the engine leaves the loop; what was printed before it stays printed.
\<close>

fun convert_pages ::
  "(bytes \<Rightarrow> string) \<Rightarrow> document \<Rightarrow> int list \<Rightarrow> image list \<Rightarrow> diag list
     \<Rightarrow> image list outcome \<times> diag list" where
  "convert_pages b64encode pdf_document [] images err = (Returns images, err)"
| "convert_pages b64encode pdf_document (page_num # rest) images err =
     (if page_num \<ge> int (length pdf_document)
      then convert_pages b64encode pdf_document rest images (err @ [PageMissing (page_num + 1)])
      else
        (case getitem pdf_document page_num of
           Raises \<Rightarrow> (Raises, err)
         | Returns pg \<Rightarrow>
             (case get_pixmap pg of
                Raises \<Rightarrow> (Raises, err)
              | Returns pix \<Rightarrow>
                  convert_pages b64encode pdf_document rest
                    (images @ [make_image b64encode page_num pix])
                    (err @ [PageConverted (page_num + 1) (pix_width pix) (pix_height pix)
                              (int (length (pix_jpeg pix)) div 1024)]))))"

definition pdf_to_images_for_ai ::
  "(bytes \<Rightarrow> string) \<Rightarrow> (bytes \<Rightarrow> document option) \<Rightarrow> bytes \<Rightarrow> int list option \<Rightarrow> int
     \<Rightarrow> image list \<times> diag list" where
  "pdf_to_images_for_ai b64encode fitz_open pdf_data pages max_pages =
     (case fitz_open pdf_data of
        None \<Rightarrow> ([], [ErrorConverting, ErrorTraceback])
      | Some pdf_document \<Rightarrow>
          (let total_pages = int (length pdf_document);
               err = [PdfHasPages total_pages]
           in if total_pages > 100 then ([], err @ [PdfTooLarge total_pages])
              else
                (let page_numbers =
                       (case pages of
                          Some (p # ps) \<Rightarrow> slice_to (p # ps) max_pages
                        | _ \<Rightarrow> map int [0 ..< nat (min total_pages max_pages)])
                 in case convert_pages b64encode pdf_document page_numbers []
                           (err @ [Converting (length page_numbers) max_pages]) of
                      (Raises, err') \<Rightarrow> ([], err' @ [ErrorConverting, ErrorTraceback])
                    | (Returns images, err') \<Rightarrow> (images, err' @ [Converted (length images)]))))"

text \<open>
  The command line, argument by argument.  \<open>JsonPages\<close> is a bracketed argument that
  parses as a JSON array of integers, \<open>SinglePage\<close> one that \<^verbatim>\<open>int\<close> accepts,
  \<open>Unparsable\<close> one on which \<^verbatim>\<open>json.loads\<close> or \<^verbatim>\<open>int\<close> raises the caught error.
  \<open>Save\<close> and \<open>Output\<close> only decide whether image files are written as well.
\<close>

datatype arg = Save | Output string | JsonPages "int list" | SinglePage int | Unparsable

fun parse_pages :: "arg list \<Rightarrow> int list option \<Rightarrow> int list option" where
  "parse_pages [] pages = pages"
| "parse_pages (Save # rest) pages = parse_pages rest pages"
| "parse_pages (Output d # rest) pages = parse_pages rest pages"
| "parse_pages (a # rest) pages =
     (if pages = None \<or> pages = Some [] then
        (case a of
           JsonPages ps \<Rightarrow> parse_pages rest (Some (map (\<lambda>p. p - 1) (filter (\<lambda>p. p > 0) ps)))
         | SinglePage page_num \<Rightarrow>
             parse_pages rest (if page_num > 0 then Some [page_num - 1] else pages)
         | _ \<Rightarrow> parse_pages rest pages)
      else parse_pages rest pages)"

text \<open>The list handed to \<^verbatim>\<open>json.dumps\<close> and printed; \<^verbatim>\<open>max_pages\<close> keeps its default.\<close>

definition images_main ::
  "(bytes \<Rightarrow> string) \<Rightarrow> (bytes \<Rightarrow> document option) \<Rightarrow> bytes \<Rightarrow> arg list \<Rightarrow> image list" where
  "images_main b64encode fitz_open pdf_data argv =
     fst (pdf_to_images_for_ai b64encode fitz_open pdf_data (parse_pages argv None) 50)"

section \<open>Form filling (\<^verbatim>\<open>fill_form_fields_fitz_v2.py\<close>)\<close>

text \<open>
  The engine writes a value into a widget (\<^verbatim>\<open>widget.update()\<close>, which can raise: the
  widget is then left as it was) and serialises the document (\<^verbatim>\<open>tobytes()\<close>); both
  are parameters.  \<open>field_values\<close> maps a field name to \<^verbatim>\<open>str\<close> of its new value.
\<close>

definition wanted :: "(string \<rightharpoonup> string) \<Rightarrow> widget \<Rightarrow> bool" where
  "wanted field_values w =
     (truthy_str (field_name w) \<and> or_empty (field_name w) \<in> dom field_values)"

definition fill_widget ::
  "(widget \<Rightarrow> string \<Rightarrow> widget outcome) \<Rightarrow> (string \<rightharpoonup> string) \<Rightarrow> widget \<Rightarrow> widget" where
  "fill_widget update field_values w =
     (if wanted field_values w then
        (case field_values (or_empty (field_name w)) of
           None \<Rightarrow> w
         | Some v \<Rightarrow> (case update w v of Raises \<Rightarrow> w | Returns w' \<Rightarrow> w'))
      else w)"

definition fill_pages ::
  "(widget \<Rightarrow> string \<Rightarrow> widget outcome) \<Rightarrow> (string \<rightharpoonup> string) \<Rightarrow> document \<Rightarrow> document" where
  "fill_pages update field_values pdf_document =
     (let form_data = filter (wanted field_values) (concat (map widgets pdf_document))
      in if form_data \<noteq> []
         then map (\<lambda>pg. pg\<lparr>widgets := map (fill_widget update field_values) (widgets pg)\<rparr>)
                pdf_document
         else pdf_document)"

definition fill_pdf_form_with_fitz_v2 ::
  "(bytes \<Rightarrow> document option) \<Rightarrow> (widget \<Rightarrow> string \<Rightarrow> widget outcome)
     \<Rightarrow> (document \<Rightarrow> bytes outcome) \<Rightarrow> bytes \<Rightarrow> (string \<rightharpoonup> string) \<Rightarrow> bytes option" where
  "fill_pdf_form_with_fitz_v2 fitz_open update tobytes pdf_data field_values =
     (case fitz_open pdf_data of
        None \<Rightarrow> None
      | Some pdf_document \<Rightarrow>
          (case tobytes (fill_pages update field_values pdf_document) of
             Raises \<Rightarrow> None
           | Returns pdf_bytes \<Rightarrow> Some pdf_bytes))"

text \<open>
  The main program: the verification pass only prints on standard error; what is
  written to standard output is the result, or the input when the result is
  \<^verbatim>\<open>None\<close>.
\<close>

definition fill_main ::
  "(bytes \<Rightarrow> document option) \<Rightarrow> (widget \<Rightarrow> string \<Rightarrow> widget outcome)
     \<Rightarrow> (document \<Rightarrow> bytes outcome) \<Rightarrow> bytes \<Rightarrow> (string \<rightharpoonup> string) \<Rightarrow> bytes" where
  "fill_main fitz_open update tobytes pdf_data field_values =
     (case fill_pdf_form_with_fitz_v2 fitz_open update tobytes pdf_data field_values of
        None \<Rightarrow> pdf_data
      | Some result \<Rightarrow> result)"

section \<open>Notions of the specification\<close>

text \<open>
  The widgets of the processed pages: of every page when no target page is given,
  of the page whose 1-based number is the target page otherwise.
\<close>

fun processed_widgets :: "int option \<Rightarrow> nat \<Rightarrow> page list \<Rightarrow> widget list" where
  "processed_widgets target_page page_num [] = []"
| "processed_widgets target_page page_num (pg # rest) =
     (if skip_page target_page page_num then processed_widgets target_page (Suc page_num) rest
      else widgets pg @ processed_widgets target_page (Suc page_num) rest)"



text \<open>
  A widget as PyMuPDF gives it.  Its \<^verbatim>\<open>_annot\<close> is an annotation object, which has
  no \<^verbatim>\<open>get\<close> method, so that \<^verbatim>\<open>annot.get("/AP")\<close> raises; it has no
  \<^verbatim>\<open>_get_widget\<close> method; and \<^verbatim>\<open>button_states()\<close> answers \<^verbatim>\<open>None\<close> or a
  dictionary, never a list.
\<close>

definition engine_widget :: "widget \<Rightarrow> bool" where
  "engine_widget w =
     (annot w = Annot Raises \<and> get_widget w = Raises
      \<and> (case button_states w of Some (Returns (PyList xs)) \<Rightarrow> False | _ \<Rightarrow> True))"


section \<open>Example documents\<close>

text \<open>A widget with nothing set: no name, no value, no optional accessor.\<close>

definition plain_widget :: widget where
  "plain_widget =
     \<lparr> field_name = None, field_type_string = ''Text'', field_value = None,
       widget_rect = \<lparr> rect_x0 = 0, rect_y0 = 0, rect_x1 = 0, rect_y1 = 0 \<rparr>,
       button_states = None, annot = NoAnnotAttr, get_widget = Raises, field_flags = None \<rparr>"

definition text_widget :: "string \<Rightarrow> real \<Rightarrow> real \<Rightarrow> real \<Rightarrow> real \<Rightarrow> widget" where
  "text_widget n a b c d =
     plain_widget \<lparr> field_name := Some n,
       widget_rect := \<lparr> rect_x0 = a, rect_y0 = b, rect_x1 = c, rect_y1 = d \<rparr> \<rparr>"

definition form_page :: "widget list \<Rightarrow> page" where
  "form_page ws = \<lparr> widgets = ws, page_rect_height = 800, get_pixmap = Raises \<rparr>"

text \<open>
  Two text fields of one visual row on a page 800 high, the right one two units
  higher: their \<open>y\<close> are 300 and 302, their snapped row is 300.
\<close>

definition left_widget :: widget where
  "left_widget = text_widget ''left'' 50 480 150 500"

definition right_widget :: widget where
  "right_widget = text_widget ''right'' 200 478 300 498"

text \<open>Two text fields with the same \<open>x\<close>, the second two units above the first.\<close>

definition first_widget :: widget where
  "first_widget = text_widget ''first'' 50 480 150 500"

definition second_widget :: widget where
  "second_widget = text_widget ''second'' 50 478 150 498"

text \<open>
  Checkboxes as PyMuPDF gives them, with the current value \<^verbatim>\<open>"Yes"\<close>.  The first
  has the appearance states \<^verbatim>\<open>Yes\<close> and \<^verbatim>\<open>Off\<close>, and \<^verbatim>\<open>button_states()\<close> answers
  \<^verbatim>\<open>{"normal": ["Yes", "Off"], "down": ["Yes", "Off"]}\<close>.  The second has no
  appearance states: \<^verbatim>\<open>button_states()\<close> answers
  \<^verbatim>\<open>{"normal": None, "down": None}\<close>.
\<close>

definition grouped_states :: choices where
  "grouped_states =
     PyDict [(''normal'', ValueList [''Yes'', ''Off'']), (''down'', ValueList [''Yes'', ''Off''])]"

definition bare_states :: choices where
  "bare_states = PyDict [(''normal'', ValueOther), (''down'', ValueOther)]"

definition engine_checkbox :: widget where
  "engine_checkbox =
     plain_widget \<lparr> field_name := Some ''agree'', field_type_string := ''CheckBox'',
       field_value := Some ''Yes'', button_states := Some (Returns grouped_states),
       annot := Annot Raises \<rparr>"

definition bare_checkbox :: widget where
  "bare_checkbox = engine_checkbox \<lparr> button_states := Some (Returns bare_states) \<rparr>"

text \<open>A page that renders, as a one-byte JPEG.\<close>

definition image_page :: page where
  "image_page =
     \<lparr> widgets = [], page_rect_height = 800,
       get_pixmap = Returns \<lparr> pix_jpeg = ''J'', pix_width = 600, pix_height = 800 \<rparr> \<rparr>"

text \<open>A page with two named text fields and a widget without a name between them.\<close>

definition form_document :: document where
  "form_document = [form_page [left_widget, plain_widget, right_widget]]"

section \<open>Unfolding the model on examples\<close>

lemmas sort_defs = sort_fields_reading_order_def get_sort_key_def snapped_row_def py_round_def
  ROW_TOLERANCE_def

lemmas choice_defs = resolve_choices_def normalize_choices_def get_choices_def
  flatten_choices_def sort_choices_def try_button_states_def try_annot_def try_get_widget_def
  value_fallback_def off_key_def

lemmas discover_defs = discover_all_pdf_fields_def page_fields_def make_field_def skip_page_def
  pdf_type_of_def

section \<open>Identifiers and names of the discovered fields\<close>

lemma length_assign_ids: "length (assign_ids i fs) = length fs"
  by (induction fs arbitrary: i) simp_all

lemma ids_assign_ids: "map f_id (assign_ids i fs) = map Some [i .. i + int (length fs) - 1]"
proof (induction fs arbitrary: i)
  case Nil
  then show ?case by simp
next
  case (Cons f fs)
  have "[i .. i + int (length (f # fs)) - 1] = i # [i + 1 .. i + 1 + int (length fs) - 1]"
    by (simp add: upto_rec1 add.commute add.left_commute)
  then show ?case using Cons.IH [of "i + 1"] by simp
qed

lemma names_assign_ids: "map f_name (assign_ids i fs) = map f_name fs"
  by (induction fs arbitrary: i) simp_all

lemma erase_assign_ids:
  "map (\<lambda>f. f\<lparr>f_id := None\<rparr>) (assign_ids i fs) = map (\<lambda>f. f\<lparr>f_id := None\<rparr>) fs"
  by (induction fs arbitrary: i) simp_all

lemma length_sort_fields: "length (sort_fields_reading_order fs) = length fs"
  by (simp add: sort_fields_reading_order_def)

lemma set_sort_fields: "set (sort_fields_reading_order fs) = set fs"
  by (simp add: sort_fields_reading_order_def)

lemma length_discover_pages:
  "length (discover_pages target_page page_num doc) =
     length (filter (\<lambda>w. truthy_str (field_name w)) (processed_widgets target_page page_num doc))"
  by (induction doc arbitrary: page_num) (simp_all add: length_sort_fields page_fields_def)

lemma name_make_field: "truthy_str (field_name w) \<Longrightarrow> f_name (make_field page_num pg w) \<noteq> []"
  by (cases "field_name w") (simp_all add: make_field_def Let_def)

lemma id_make_field: "f_id (make_field page_num pg w) = None"
  by (simp add: make_field_def Let_def)

lemma names_page_fields: "f \<in> set (page_fields page_num pg) \<Longrightarrow> f_name f \<noteq> []"
  by (auto simp: page_fields_def name_make_field)

lemma names_discover_pages:
  "f \<in> set (discover_pages target_page page_num doc) \<Longrightarrow> f_name f \<noteq> []"
  by (induction doc arbitrary: page_num)
     (auto simp: set_sort_fields names_page_fields split: if_splits)

lemma ids_discover_pages:
  "f \<in> set (discover_pages target_page page_num doc) \<Longrightarrow> f_id f = None"
  by (induction doc arbitrary: page_num)
     (auto simp: set_sort_fields page_fields_def id_make_field split: if_splits)

lemma erase_discover_pages:
  "map (\<lambda>f. f\<lparr>f_id := None\<rparr>) (discover_pages target_page page_num doc) = discover_pages target_page page_num doc"
  by (rule map_idI) (simp add: ids_discover_pages)

text \<open>
  Claim C4.  After discovery, the \<open>id\<close> values of the emitted fields are exactly
  \<open>1, \<dots>, N\<close> along the final sequence, where \<open>N\<close> is the number of fields
  discovered on the processed pages (the widgets there that have a name); taking
  the identifiers away leaves the pages' reading-order lists, one after the other.
\<close>

theorem ids_contiguous:
  "map f_id (discover_all_pdf_fields fitz_open pdf_data target_page) =
     map Some [1 .. int (length (discover_all_pdf_fields fitz_open pdf_data target_page))]
   \<and> (case fitz_open pdf_data of
        None \<Rightarrow> discover_all_pdf_fields fitz_open pdf_data target_page = []
      | Some doc \<Rightarrow>
          length (discover_all_pdf_fields fitz_open pdf_data target_page) =
            length (filter (\<lambda>w. truthy_str (field_name w)) (processed_widgets target_page 0 doc))
          \<and> map (\<lambda>f. f\<lparr>f_id := None\<rparr>) (discover_all_pdf_fields fitz_open pdf_data target_page) =
              discover_pages target_page 0 doc)"
  by (simp add: discover_all_pdf_fields_def ids_assign_ids length_assign_ids
      length_discover_pages erase_assign_ids erase_discover_pages split: option.split)

theorem ids_contiguous_witness:
  "map f_id (discover_all_pdf_fields (\<lambda>d. Some form_document) ''%PDF'' None) = [Some 1, Some 2]"
proof -
  have "length (discover_all_pdf_fields (\<lambda>d. Some form_document) ''%PDF'' None) = 2"
    by (simp add: discover_all_pdf_fields_def length_assign_ids length_sort_fields
        page_fields_def form_document_def form_page_def left_widget_def right_widget_def
        text_widget_def plain_widget_def skip_page_def)
  with ids_contiguous [of "\<lambda>d. Some form_document" "''%PDF''" None] show ?thesis
    by (simp add: upto.simps)
qed

text \<open>
  Claim C9.  Every record emitted by field discovery has a non-empty name, and the
  records are as many as the widgets with a non-empty name on the processed pages:
  a widget whose name is empty or absent gives no record.
\<close>

theorem names_nonempty:
  "(\<forall>f \<in> set (discover_all_pdf_fields fitz_open pdf_data target_page). f_name f \<noteq> [])
   \<and> (\<forall>doc. fitz_open pdf_data = Some doc \<longrightarrow>
         length (discover_all_pdf_fields fitz_open pdf_data target_page) =
           length (filter (\<lambda>w. truthy_str (field_name w)) (processed_widgets target_page 0 doc)))"
proof -
  have "f_name f \<noteq> []" if "f \<in> set (assign_ids i fs)" "\<forall>g \<in> set fs. f_name g \<noteq> []" for f i fs
  proof -
    from that(1) have "f_name f \<in> set (map f_name (assign_ids i fs))" by simp
    then show ?thesis using that(2) by (auto simp: names_assign_ids)
  qed
  then show ?thesis
    by (auto simp: discover_all_pdf_fields_def length_assign_ids length_discover_pages
        names_discover_pages split: option.splits)
qed

theorem names_nonempty_witness:
  "map f_name (discover_all_pdf_fields (\<lambda>d. Some form_document) ''%PDF'' None) =
     [''right'', ''left'']
   \<and> f_name (hd (discover_all_pdf_fields (\<lambda>d. Some form_document) ''%PDF'' None)) \<noteq> []
   \<and> length (discover_all_pdf_fields (\<lambda>d. Some form_document) ''%PDF'' None) =
       length (filter (\<lambda>w. truthy_str (field_name w)) (processed_widgets None 0 form_document))"
proof -
  have names: "map f_name (discover_all_pdf_fields (\<lambda>d. Some form_document) ''%PDF'' None) =
      [''right'', ''left'']"
    by (simp add: discover_defs sort_defs form_document_def form_page_def left_widget_def
        right_widget_def text_widget_def plain_widget_def)
  then have "hd (discover_all_pdf_fields (\<lambda>d. Some form_document) ''%PDF'' None)
      \<in> set (discover_all_pdf_fields (\<lambda>d. Some form_document) ''%PDF'' None)"
    by (intro hd_in_set) auto
  with names names_nonempty [of "\<lambda>d. Some form_document" "''%PDF''" None] show ?thesis
    by simp
qed

section \<open>Failure to open, and the page ceiling\<close>

text \<open>
  Claim C5.  When opening the document fails, field discovery and image conversion
  give the empty list and the checkbox utility the empty mapping to \<^verbatim>\<open>json.dumps\<close>,
  and the filling utility writes the input bytes; each program ends normally.
\<close>

theorem open_failure:
  "fitz_open pdf_data = None \<Longrightarrow>
     discover_all_pdf_fields fitz_open pdf_data target_page = []
   \<and> images_main b64encode fitz_open pdf_data argv = []
   \<and> get_checkbox_export_values fitz_open pdf_data = Map.empty
   \<and> fill_main fitz_open update tobytes pdf_data field_values = pdf_data"
  by (simp add: discover_all_pdf_fields_def images_main_def pdf_to_images_for_ai_def
      get_checkbox_export_values_def fill_main_def fill_pdf_form_with_fitz_v2_def)

theorem open_failure_witness:
  "discover_all_pdf_fields (\<lambda>d. None) ''junk'' None = []
   \<and> images_main (\<lambda>b. b) (\<lambda>d. None) ''junk'' [JsonPages [1, 2]] = []
   \<and> get_checkbox_export_values (\<lambda>d. None) ''junk'' = Map.empty
   \<and> fill_main (\<lambda>d. None) (\<lambda>w v. Raises) (\<lambda>d. Raises) ''junk'' [''name'' \<mapsto> ''Jane''] = ''junk''"
  using open_failure [of "\<lambda>d. None" "''junk''" None "\<lambda>b. b" "[JsonPages [1, 2]]"
      "\<lambda>w v. Raises" "\<lambda>d. Raises" "[''name'' \<mapsto> ''Jane'']"]
  by simp

text \<open>
  Claim C6.  A document of more than 100 pages gives the empty result, whatever
  pages were requested; all that is printed is the page count and the refusal, so
  no page was converted.
\<close>

theorem too_many_pages:
  "fitz_open pdf_data = Some doc \<Longrightarrow> length doc > 100 \<Longrightarrow>
     pdf_to_images_for_ai b64encode fitz_open pdf_data pages max_pages =
       ([], [PdfHasPages (int (length doc)), PdfTooLarge (int (length doc))])
   \<and> images_main b64encode fitz_open pdf_data argv = []"
  by (simp add: images_main_def pdf_to_images_for_ai_def Let_def)

text \<open>The specification's scenario: 150 pages, with pages 1 and 2 requested.\<close>

theorem too_many_pages_witness:
  "pdf_to_images_for_ai (\<lambda>b. b) (\<lambda>d. Some (replicate 150 image_page)) ''%PDF'' (Some [0, 1]) 50 =
     ([], [PdfHasPages 150, PdfTooLarge 150])
   \<and> images_main (\<lambda>b. b) (\<lambda>d. Some (replicate 150 image_page)) ''%PDF'' [JsonPages [1, 2]] = []"
  using too_many_pages [of "\<lambda>d. Some (replicate 150 image_page)" "''%PDF''"
      "replicate 150 image_page" "\<lambda>b. b" "Some [0, 1]" 50 "[JsonPages [1, 2]]"]
  by simp

section \<open>Normalisation of checkbox choices\<close>

lemma off_key_le: "off_key a \<le> off_key b \<longleftrightarrow> (a = ''Off'' \<and> b \<noteq> ''Off'') \<or> ((a = ''Off'') = (b = ''Off'') \<and> a \<le> b)"
  by (auto simp: off_key_def less_eq_prod_def)

lemma inj_off_key: "inj off_key"
  by (auto simp: inj_def off_key_def)

lemma sort_key_enumeration:
  assumes "distinct ys" "set ys = set xs"
  shows "sort_key off_key ys = sort_key off_key (remdups xs)"
proof -
  let ?a = "sort_key off_key ys" and ?b = "sort_key off_key (remdups xs)"
  have d: "distinct (map off_key ?a)" "distinct (map off_key ?b)"
    using assms(1) by (simp_all add: distinct_map inj_on_subset [OF inj_off_key])
  have s: "set (map off_key ?a) = set (map off_key ?b)"
    using assms(2) by simp
  have "map off_key ?a = map off_key ?b"
    by (rule sorted_distinct_set_unique [OF sorted_sort_key d(1) sorted_sort_key d(2) s])
  then show ?thesis
    using inj_off_key by simp
qed





lemma sort_choices_sorted:
  "sorted (map off_key xs) \<Longrightarrow> sort_choices ft (PyList xs) = PyList xs"
  by (simp add: sort_choices_def sort_key_id_if_sorted)

text \<open>
  Claim C8.  The normalisation step (flatten a mapping of lists and deduplicate,
  then sort with \<^verbatim>\<open>"Off"\<close> first) is idempotent: applied to its own result, and
  to any sequence already in key order, it gives that sequence back.
\<close>

theorem normalize_idempotent:
  "normalize_choices ft (normalize_choices ft c) = normalize_choices ft c
   \<and> (sorted (map off_key xs) \<longrightarrow> normalize_choices ft (PyList xs) = PyList xs)"
proof -
  have fl: "flatten_choices (sort_choices ft (flatten_choices c)) = sort_choices ft (flatten_choices c)"
    by (cases c) (auto simp: flatten_choices_def sort_choices_def Let_def)
  have "sort_choices ft (sort_choices ft d) = sort_choices ft d" for d
    by (cases d) (auto simp: sort_choices_def sort_key_id_if_sorted)
  with fl show ?thesis
    by (simp add: normalize_choices_def flatten_choices_def sort_choices_sorted)
qed


theorem normalize_idempotent_witness:
  "normalize_choices ''CheckBox'' (normalize_choices ''CheckBox'' grouped_states) =
     PyList [''Off'', ''Yes'']
   \<and> normalize_choices ''CheckBox'' (PyList [''Off'', ''Yes'']) = PyList [''Off'', ''Yes'']"
proof -
  have once: "normalize_choices ''CheckBox'' grouped_states = PyList [''Off'', ''Yes'']"
    by (simp add: choice_defs grouped_states_def less_eq_prod_def)
  have srt: "sorted (map off_key [''Off'', ''Yes''])"
    by (simp add: off_key_def less_eq_prod_def)
  show ?thesis
    using normalize_idempotent [of "''CheckBox''" grouped_states "[''Off'', ''Yes'']"] once srt
    by simp
qed

















section \<open>The fallback of the checkbox resolver\<close>

lemma normalize_value_fallback:
  "normalize_choices ''CheckBox'' (value_fallback fv) = value_fallback fv"
  by (simp add: normalize_choices_def flatten_choices_def sort_choices_def value_fallback_def
      off_key_le)

text \<open>
  The fallbacks as they are written.  In field discovery the choices come from the
  current value when strategy 1 or strategy 2 raises; the checkbox utility has the
  fixed answer \<^verbatim>\<open>["Off", "Unknown"]\<close> when its strategies raise or give nothing.
\<close>

lemma fallback_on_exception:
  assumes "field_type_string w = ''CheckBox''"
  shows "(try_button_states w = Raises
            \<or> (\<exists>c. try_button_states w = Returns c \<and> try_annot w c = Raises)
          \<longrightarrow> resolve_choices w =
                (if or_empty (field_value w) \<noteq> [] \<and> or_empty (field_value w) \<noteq> ''Off''
                 then PyList [''Off'', or_empty (field_value w)] else PyList [''Off'']))
       \<and> (appearance_states w = Raises
            \<or> (\<exists>st. appearance_states w = Returns st \<and> \<not> truthy st)
          \<longrightarrow> possible_values w = PyList [''Off'', ''Unknown''])"
proof -
  have "resolve_choices w = value_fallback (or_empty (field_value w))"
    if "try_button_states w = Raises
          \<or> (\<exists>c. try_button_states w = Returns c \<and> try_annot w c = Raises)"
    using that assms
    by (auto simp: resolve_choices_def get_choices_def normalize_value_fallback)
  moreover have "possible_values w = PyList [''Off'', ''Unknown'']"
    if "appearance_states w = Raises \<or> (\<exists>st. appearance_states w = Returns st \<and> \<not> truthy st)"
    using that by (auto simp: possible_values_def)
  ultimately show ?thesis
    by (simp add: value_fallback_def)
qed

text \<open>
  Claim C2, evaluated where it fails.  The checkbox \<^verbatim>\<open>agree\<close> has no appearance
  states and the current value \<^verbatim>\<open>"Yes"\<close>: \<^verbatim>\<open>button_states()\<close> answers a dictionary
  with no state name in it, reading the annotation's appearance raises, and there
  is no widget object.  No strategy yields a value, and the claim resolves the
  field to \<^verbatim>\<open>["Off", "Yes"]\<close>.  Nothing raises in strategy 1, and the dictionary is
  truthy, so neither the other strategies nor the handler run; the flattening
  leaves the empty list, and discovery emits the field with no choices.
\<close>

theorem bare_checkbox_unresolved:
  "engine_widget bare_checkbox
   \<and> try_button_states bare_checkbox = Returns bare_states
   \<and> flatten_choices bare_states = PyList []
   \<and> annot bare_checkbox = Annot Raises
   \<and> get_widget bare_checkbox = Raises
   \<and> map (\<lambda>f. (f_name f, f_field_type f, f_current_value f, f_choices f))
        (discover_all_pdf_fields (\<lambda>d. Some [form_page [bare_checkbox]]) ''%PDF'' None) =
      [(''agree'', ''CheckBox'', ''Yes'', PyList [])]"
  by (simp add: discover_defs sort_fields_reading_order_def choice_defs engine_widget_def
      form_page_def bare_checkbox_def bare_states_def engine_checkbox_def plain_widget_def)

text \<open>The checkbox utility gives its fixed answer for the same field.\<close>

lemma bare_checkbox_utility:
  "map_option cb_possible_values
     (get_checkbox_export_values (\<lambda>d. Some [form_page [bare_checkbox]]) ''%PDF'' ''agree'') =
     Some (PyList [''Off'', ''Unknown''])"
  by (simp add: get_checkbox_export_values_def checkbox_entry_def possible_values_def
      appearance_states_def try_button_states_def form_page_def bare_checkbox_def
      bare_states_def engine_checkbox_def plain_widget_def)

section \<open>Pages of the emitted images\<close>

lemma parse_pages_nonneg:
  "parse_pages argv pages = Some qs \<Longrightarrow> (\<forall>ps. pages = Some ps \<longrightarrow> (\<forall>p \<in> set ps. 0 \<le> p))
     \<Longrightarrow> \<forall>q \<in> set qs. 0 \<le> q"
proof (induction argv arbitrary: pages)
  case Nil
  then show ?case by simp
next
  case (Cons a argv)
  show ?case
  proof (cases a)
    case (JsonPages ps)
    with Cons.prems show ?thesis
      by (auto split: if_splits dest!: Cons.IH)
  next
    case (SinglePage n)
    with Cons.prems show ?thesis
      by (auto split: if_splits dest!: Cons.IH)
  qed (use Cons in \<open>auto split: if_splits\<close>)
qed

lemma getitem_in_range:
  "0 \<le> i \<Longrightarrow> i < int (length doc) \<Longrightarrow> getitem doc i = Returns (doc ! nat i)"
  by (simp add: getitem_def)

lemma convert_pages_range:
  "convert_pages b64encode doc ps images err = (Returns out, err')
     \<Longrightarrow> \<forall>p \<in> set ps. 0 \<le> p
     \<Longrightarrow> \<forall>i \<in> set images. 1 \<le> img_page i \<and> img_page i \<le> int (length doc)
     \<Longrightarrow> \<forall>i \<in> set out. 1 \<le> img_page i \<and> img_page i \<le> int (length doc)"
proof (induction ps arbitrary: images err)
  case Nil
  then show ?case by simp
next
  case (Cons p ps)
  show ?case
  proof (cases "p \<ge> int (length doc)")
    case True
    with Cons.prems show ?thesis
      by (auto dest!: Cons.IH)
  next
    case False
    with Cons.prems(2) have g: "getitem doc p = Returns (doc ! nat p)"
      by (simp add: getitem_in_range)
    from Cons.prems(1) False g obtain pix where
      pix: "get_pixmap (doc ! nat p) = Returns pix"
      and rest: "convert_pages b64encode doc ps (images @ [make_image b64encode p pix])
        (err @ [PageConverted (p + 1) (pix_width pix) (pix_height pix)
                  (int (length (pix_jpeg pix)) div 1024)]) = (Returns out, err')"
      by (auto split: outcome.splits)
    have "\<forall>i \<in> set (images @ [make_image b64encode p pix]).
            1 \<le> img_page i \<and> img_page i \<le> int (length doc)"
      using Cons.prems(2,3) False by (auto simp: make_image_def)
    with Cons.IH [OF rest] Cons.prems(2) show ?thesis by simp
  qed
qed

lemma convert_pages_all:
  "\<forall>pg \<in> set doc. get_pixmap pg \<noteq> Raises \<Longrightarrow> \<forall>p \<in> set ps. 0 \<le> p
     \<Longrightarrow> \<exists>out err'. convert_pages b64encode doc ps images err = (Returns out, err')
           \<and> map img_page out = map img_page images @ map (\<lambda>q. q + 1) (filter (\<lambda>q. q < int (length doc)) ps)"
proof (induction ps arbitrary: images err)
  case Nil
  then show ?case by simp
next
  case (Cons p ps)
  show ?case
  proof (cases "p \<ge> int (length doc)")
    case True
    with Cons.IH [of images "err @ [PageMissing (p + 1)]"] Cons.prems show ?thesis
      by simp
  next
    case False
    with Cons.prems(2) have g: "getitem doc p = Returns (doc ! nat p)"
      by (simp add: getitem_in_range)
    from False Cons.prems(2) have "nat p < length doc" by auto
    then have "doc ! nat p \<in> set doc" by (rule nth_mem)
    with Cons.prems(1) obtain pix where pix: "get_pixmap (doc ! nat p) = Returns pix"
      by (cases "get_pixmap (doc ! nat p)") auto
    from Cons.IH [of "images @ [make_image b64encode p pix]"
        "err @ [PageConverted (p + 1) (pix_width pix) (pix_height pix)
                  (int (length (pix_jpeg pix)) div 1024)]"] Cons.prems
    show ?thesis using False g pix by (auto simp: make_image_def)
  qed
qed

lemma page_numbers_nonneg:
  assumes "parse_pages argv None = pages"
  shows "\<forall>p \<in> set (case pages of Some (p # ps) \<Rightarrow> slice_to (p # ps) 50
                     | _ \<Rightarrow> map int [0 ..< nat (min n 50)]). 0 \<le> p"
proof (cases pages)
  case None
  then show ?thesis by simp
next
  case (Some qs)
  with assms have "\<forall>q \<in> set qs. 0 \<le> q"
    using parse_pages_nonneg [of argv None qs] by simp
  then show ?thesis using Some
    by (auto simp: slice_to_def split: list.splits dest: in_set_takeD)
qed

text \<open>
  Claim C10.  Whatever pages the command line requests, every emitted image record
  has a page number between 1 and the page count: the non-positive page numbers
  are filtered out before the conversion, and a requested index beyond the last
  page is skipped.  When every page renders, the emitted pages are exactly the
  requested ones (the first 50) that exist, in the order requested.
\<close>

theorem image_pages_in_range:
  assumes "fitz_open pdf_data = Some doc"
  shows "(\<forall>img \<in> set (images_main b64encode fitz_open pdf_data argv).
            1 \<le> img_page img \<and> img_page img \<le> int (length doc))
       \<and> (parse_pages argv None = Some (p # ps) \<and> length doc \<le> 100
            \<and> (\<forall>pg \<in> set doc. get_pixmap pg \<noteq> Raises)
          \<longrightarrow> map img_page (images_main b64encode fitz_open pdf_data argv) =
                map (\<lambda>q. q + 1) (filter (\<lambda>q. q < int (length doc)) (take 50 (p # ps))))"
proof -
  define pages where "pages = parse_pages argv None"
  define page_numbers where "page_numbers =
    (case pages of Some (p # ps) \<Rightarrow> slice_to (p # ps) 50
     | _ \<Rightarrow> map int [0 ..< nat (min (int (length doc)) 50)])"
  define err where "err = [PdfHasPages (int (length doc)), Converting (length page_numbers) 50]"
  have nonneg: "\<forall>q \<in> set page_numbers. 0 \<le> q"
    unfolding page_numbers_def using page_numbers_nonneg [of argv pages] pages_def by simp
  have main: "images_main b64encode fitz_open pdf_data argv =
      (if int (length doc) > 100 then []
       else case convert_pages b64encode doc page_numbers [] err of
              (Raises, err') \<Rightarrow> [] | (Returns images, err') \<Rightarrow> images)"
    using assms
    by (simp add: images_main_def pdf_to_images_for_ai_def Let_def pages_def page_numbers_def
        err_def split: prod.splits outcome.splits)
  have first: "\<forall>img \<in> set (images_main b64encode fitz_open pdf_data argv).
            1 \<le> img_page img \<and> img_page img \<le> int (length doc)"
  proof (cases "convert_pages b64encode doc page_numbers [] err")
    case (Pair r err')
    show ?thesis
    proof (cases r)
      case Raises
      with Pair main show ?thesis by simp
    next
      case (Returns out)
      with Pair have "convert_pages b64encode doc page_numbers [] err = (Returns out, err')"
        by simp
      from convert_pages_range [OF this nonneg] Pair Returns main show ?thesis
        by simp
    qed
  qed
  have second: "map img_page (images_main b64encode fitz_open pdf_data argv) =
      map (\<lambda>q. q + 1) (filter (\<lambda>q. q < int (length doc)) (take 50 (p # ps)))"
    if req: "parse_pages argv None = Some (p # ps)" and small: "length doc \<le> 100"
      and ok: "\<forall>pg \<in> set doc. get_pixmap pg \<noteq> Raises"
  proof -
    from req have pn: "page_numbers = take 50 (p # ps)"
      by (simp add: page_numbers_def pages_def slice_to_def)
    from convert_pages_all [OF ok nonneg, of b64encode "[]" err]
    obtain out err' where "convert_pages b64encode doc page_numbers [] err = (Returns out, err')"
      and "map img_page out = map (\<lambda>q. q + 1) (filter (\<lambda>q. q < int (length doc)) page_numbers)"
      by auto
    with main small pn show ?thesis by simp
  qed
  from first second show ?thesis by blast
qed

theorem image_pages_in_range_witness:
  "parse_pages [JsonPages [0, 2, 5, - 1]] None = Some [1, 4]
   \<and> map img_page (images_main (\<lambda>b. b) (\<lambda>d. Some [image_page, image_page]) ''%PDF''
         [JsonPages [0, 2, 5, - 1]]) = [2]
   \<and> (1 :: int) \<le> 2 \<and> 2 \<le> int (length [image_page, image_page])"
proof -
  have p: "parse_pages [JsonPages [0, 2, 5, - 1]] None = Some [1, 4]"
    by simp
  have r: "\<forall>pg \<in> set [image_page, image_page]. get_pixmap pg \<noteq> Raises"
    by (simp add: image_page_def)
  show ?thesis
    using image_pages_in_range [of "\<lambda>d. Some [image_page, image_page]" "''%PDF''"
        "[image_page, image_page]" "\<lambda>b. b" "[JsonPages [0, 2, 5, - 1]]" 1 "[4]"] p r
    by simp
qed

section \<open>The reading order of a page\<close>

text \<open>
  What the sort does give: it is stable on equal keys, and on coordinates that
  are not negative a field of a higher snapped row (larger \<open>y\<close>; this is the
  row the specification calls the top one) sorts before a field of a lower one.
\<close>

lemma py_round_mono: "a \<le> b \<Longrightarrow> py_round a \<le> py_round b"
proof -
  assume ab: "a \<le> b"
  have fl: "\<lfloor>a\<rfloor> \<le> \<lfloor>b\<rfloor>" using ab by (rule floor_mono)
  show ?thesis
  proof (cases "\<lfloor>a\<rfloor> = \<lfloor>b\<rfloor>")
    case True
    with ab show ?thesis unfolding py_round_def Let_def by auto
  next
    case False
    with fl have "\<lfloor>a\<rfloor> + 1 \<le> \<lfloor>b\<rfloor>" by simp
    moreover have "py_round a \<le> \<lfloor>a\<rfloor> + 1" unfolding py_round_def Let_def by auto
    moreover have "\<lfloor>b\<rfloor> \<le> py_round b" unfolding py_round_def Let_def by auto
    ultimately show ?thesis by linarith
  qed
qed

lemma snapped_row_mono: "a \<le> b \<Longrightarrow> snapped_row a \<le> snapped_row b"
  by (simp add: snapped_row_def ROW_TOLERANCE_def py_round_mono divide_right_mono)

lemma snapped_row_nonneg: "0 \<le> y \<Longrightarrow> 0 \<le> snapped_row y"
  using snapped_row_mono [of 0 y] by (simp add: snapped_row_def py_round_def)

lemma rows_descend_nonneg:
  assumes "0 \<le> f_y b" "snapped_row (f_y b) < snapped_row (f_y a)"
  shows "get_sort_key a < get_sort_key b"
proof -
  have yb: "f_y b < f_y a"
    using assms(2) snapped_row_mono [of "f_y a" "f_y b"] by (cases "f_y a \<le> f_y b") auto
  have rb: "0 \<le> snapped_row (f_y b)"
    using assms(1) by (rule snapped_row_nonneg)
  have "real_of_int (snapped_row (f_y b)) * f_y b \<le> real_of_int (snapped_row (f_y b)) * f_y a"
    using rb yb by (simp add: mult_left_mono)
  also have "\<dots> < real_of_int (snapped_row (f_y a)) * f_y a"
    using assms yb by (simp add: mult_strict_right_mono)
  finally show ?thesis
    by (simp add: get_sort_key_def Let_def less_prod_def)
qed

lemma sort_fields_stable:
  "filter (\<lambda>f. get_sort_key f = k) (sort_fields_reading_order fs) =
     filter (\<lambda>f. get_sort_key f = k) fs"
  by (simp add: sort_fields_reading_order_def sort_key_stable)

lemma sort_fields_sorted: "sorted (map get_sort_key (sort_fields_reading_order fs))"
  by (simp add: sort_fields_reading_order_def)

text \<open>
  Claim C1, evaluated where it fails.  The fields \<^verbatim>\<open>left\<close> (\<open>x = 50\<close>, \<open>y = 300\<close>)
  and \<^verbatim>\<open>right\<close> (\<open>x = 200\<close>, \<open>y = 302\<close>) have the same snapped row 300, and the claim
  puts the one with the smaller \<open>x\<close> first.  The key \<^verbatim>\<open>row * -y\<close> is \<open>-90000\<close> for
  \<^verbatim>\<open>left\<close> and \<open>-90600\<close> for \<^verbatim>\<open>right\<close>, so discovery emits \<^verbatim>\<open>right\<close> first.
  All numbers involved are small integers, which floats compute exactly as well.
\<close>

theorem same_row_sorted_by_y:
  "map (\<lambda>f. (f_id f, f_name f, f_x f, f_y f, snapped_row (f_y f)))
     (discover_all_pdf_fields (\<lambda>d. Some [form_page [left_widget, right_widget]]) ''%PDF'' None) =
   [(Some 1, ''right'', 200, 302, 300), (Some 2, ''left'', 50, 300, 300)]"
  by (simp add: discover_defs sort_defs form_page_def left_widget_def right_widget_def
      text_widget_def plain_widget_def)

text \<open>
  Claim C7, evaluated where it fails.  The fields \<^verbatim>\<open>first\<close> (\<open>y = 300\<close>) and
  \<^verbatim>\<open>second\<close> (\<open>y = 302\<close>) have the same snapped row 300 and the same \<open>x = 50\<close>, and
  come in this order; the sorter returns \<^verbatim>\<open>second\<close> before \<^verbatim>\<open>first\<close>.
\<close>

theorem same_row_same_x_reordered:
  "map (\<lambda>f. (f_name f, f_x f, f_y f, snapped_row (f_y f)))
     (page_fields 0 (form_page [first_widget, second_widget])) =
   [(''first'', 50, 300, 300), (''second'', 50, 302, 300)]
   \<and> map (\<lambda>f. (f_name f, f_x f, f_y f, snapped_row (f_y f)))
     (sort_fields_reading_order (page_fields 0 (form_page [first_widget, second_widget]))) =
   [(''second'', 50, 302, 300), (''first'', 50, 300, 300)]"
  by (simp add: page_fields_def make_field_def sort_defs form_page_def first_widget_def
      second_widget_def text_widget_def plain_widget_def)

end
